theory Spec2Isabelle
  imports Complex_Main "HOL-Library.AList"
begin

section \<open>Importing bank transactions: the notebook's table pipeline\<close>

text \<open>
  The notebook \<^verbatim>\<open>finance/importing-bank-transactions.ipynb\<close> loads a bank export with
  \<^verbatim>\<open>pd.read_csv\<close> and then cleans the table with three statements of its own:
  a column rename, the concatenation of the two description columns, and the removal of
  the second description column. The table is modelled the way pandas holds it, as an
  ordered list of labelled columns, each with its element type; every statement of the
  notebook that changes the table \<^emph>\<open>in place\<close> returns the new table here, and every
  Python exception is a value of \<open>py_error\<close>.

  Scope of the model. A cell is a text, a timestamp, a number or the missing value. A
  timestamp is held as its year, month and day: the only format the notebook passes,
  \<^verbatim>\<open>%Y%m%d\<close>, carries no time of day. A number is held as the exact rational value of
  its decimal text; the binary floating-point rounding of the program is not represented,
  and the integer and the floating-point column types are one numeric type. Of the
  reader's type inference, the conversions that the notebook asks for or relies on are
  modelled (dates, numbers, missing values); its other inferences (booleans, an implicit
  index column, numbers in exponent notation) are not.
\<close>

subsection \<open>Cells, series, frames, exceptions\<close>

datatype cell = Str string | Timestamp nat nat nat | Number rat | NaN

datatype dtype = Object | Numeric | Datetime64

type_synonym Series = "dtype \<times> cell list"

type_synonym DataFrame = "(string \<times> Series) list"

datatype py_error = KeyError string | TypeError | ParserError

text \<open>The file as the tokenizer hands it over: the header line and the data lines, each a
  list of text fields.\<close>

record csv_file =
  header :: "string list"
  lines :: "string list list"

subsection \<open>Field parsers\<close>

text \<open>
  Modelled from the spec: how \<^verbatim>\<open>read_csv\<close> turns one field into a date or a number is
  pandas library code, which the repository only calls. The functions of this subsection
  follow the specification's date coercion and amount coercion; the first ones read
  digits and know the lengths of the months.
\<close>

definition is_digit :: "char \<Rightarrow> bool" where
  "is_digit c = (c \<in> set ''0123456789'')"

definition digit :: "char \<Rightarrow> nat" where
  "digit c = (of_char c :: nat) - 48"

definition to_nat :: "string \<Rightarrow> nat option" where
  "to_nat s =
     (if s \<noteq> [] \<and> list_all is_digit s
      then Some (foldl (\<lambda>n c. 10 * n + digit c) 0 s) else None)"

definition is_leap :: "nat \<Rightarrow> bool" where
  "is_leap y = (y mod 4 = 0 \<and> (y mod 100 \<noteq> 0 \<or> y mod 400 = 0))"

definition days_in_month :: "nat \<Rightarrow> nat \<Rightarrow> nat" where
  "days_in_month y m =
     (if m = 2 then (if is_leap y then 29 else 28)
      else if m \<in> {4, 6, 9, 11} then 30 else 31)"

text \<open>
  Modelled from the spec: the text-to-date conversion that \<^verbatim>\<open>read_csv\<close> performs for
  \<^verbatim>\<open>date_format\<close> is pandas library code, not part of the repository. Following the
  specification (date coercion, step 1), the text must match the format exactly in digit
  count and field order: \<^verbatim>\<open>%Y\<close> is four digits, \<^verbatim>\<open>%m\<close> and \<^verbatim>\<open>%d\<close> are two digits
  each, any other character of the format stands for itself, and nothing may be left
  over. The argument \<open>(y, m, d)\<close> carries the fields read so far.
\<close>

fun strptime_from :: "string \<Rightarrow> string \<Rightarrow> nat \<times> nat \<times> nat \<Rightarrow> (nat \<times> nat \<times> nat) option" where
  "strptime_from [] s ymd = (if s = [] then Some ymd else None)"
| "strptime_from (c # fmt) s (y, m, d) =
     (if c = CHR ''%'' then
        (case fmt of
           [] \<Rightarrow> None
         | k # fmt' \<Rightarrow>
             if k = CHR ''Y'' then
               (case to_nat (take 4 s) of
                  None \<Rightarrow> None
                | Some v \<Rightarrow> if length s < 4 then None else strptime_from fmt' (drop 4 s) (v, m, d))
             else if k = CHR ''m'' then
               (case to_nat (take 2 s) of
                  None \<Rightarrow> None
                | Some v \<Rightarrow> if length s < 2 then None else strptime_from fmt' (drop 2 s) (y, v, d))
             else if k = CHR ''d'' then
               (case to_nat (take 2 s) of
                  None \<Rightarrow> None
                | Some v \<Rightarrow> if length s < 2 then None else strptime_from fmt' (drop 2 s) (y, m, v))
             else None)
      else
        (case s of
           [] \<Rightarrow> None
         | x # s' \<Rightarrow> if x = c then strptime_from fmt s' (y, m, d) else None))"

text \<open>Modelled from the spec: a text is a date only if it matches the format and names a
  day of the calendar.\<close>

definition strptime :: "string \<Rightarrow> string \<Rightarrow> (nat \<times> nat \<times> nat) option" where
  "strptime fmt s =
     (case strptime_from fmt s (1900, 1, 1) of
        None \<Rightarrow> None
      | Some (y, m, d) \<Rightarrow>
          if 1 \<le> m \<and> m \<le> 12 \<and> 1 \<le> d \<and> d \<le> days_in_month y m then Some (y, m, d) else None)"

text \<open>
  Modelled from the spec: the text-to-number conversion of \<^verbatim>\<open>read_csv\<close>, with its
  \<^verbatim>\<open>thousands\<close> option, is pandas library code, not part of the repository. Following
  the specification (amount coercion, step 3), every occurrence of the separator is
  removed wherever it stands, and the remainder is read as a signed decimal number whose
  decimal point is \<^verbatim>\<open>.\<close>.
\<close>

definition parse_decimal :: "string \<Rightarrow> rat option" where
  "parse_decimal s =
     (let neg = (s \<noteq> [] \<and> hd s = CHR ''-'');
          body = (if s \<noteq> [] \<and> (hd s = CHR ''-'' \<or> hd s = CHR ''+'') then tl s else s);
          ip = takeWhile (\<lambda>c. c \<noteq> CHR ''.'') body;
          rest = dropWhile (\<lambda>c. c \<noteq> CHR ''.'') body;
          sgn = (if neg then - 1 else 1)
      in case rest of
           [] \<Rightarrow> map_option (\<lambda>a. sgn * of_nat a) (to_nat ip)
         | _ # fp \<Rightarrow>
             (case to_nat ip of
                None \<Rightarrow> None
              | Some a \<Rightarrow>
                  (case to_nat fp of
                     None \<Rightarrow> None
                   | Some b \<Rightarrow> Some (sgn * (of_nat a + of_nat b / 10 ^ length fp)))))"

text \<open>Modelled from the spec: stripping the configured separator (if any) before the
  signed decimal is read.\<close>

definition to_number :: "char option \<Rightarrow> string \<Rightarrow> rat option" where
  "to_number thousands s =
     parse_decimal (case thousands of None \<Rightarrow> s | Some t \<Rightarrow> filter (\<lambda>c. c \<noteq> t) s)"

subsection \<open>The reader\<close>

text \<open>
  \<^verbatim>\<open>pd.read_csv(path, parse_dates=[0], date_format="%Y%m%d", thousands=",")\<close>, with
  every other option at its default.

  Missing values: by default the reader takes an empty field, and a field that is one of
  a fixed list of markers, for a missing value, in every column. A line with fewer fields
  than the header is completed with missing values; a line with more fields is a
  \<^verbatim>\<open>ParserError\<close>.
\<close>

definition na_values :: "string list" where
  "na_values =
     [[], ''#N/A'', ''#N/A N/A'', ''#NA'', ''-1.#IND'', ''-1.#QNAN'', ''-NaN'', ''-nan'',
      ''1.#IND'', ''1.#QNAN'', ''<NA>'', ''N/A'', ''NA'', ''NULL'', ''NaN'', ''None'',
      ''n/a'', ''nan'', ''null'']"

definition is_na :: "string \<Rightarrow> bool" where
  "is_na s = (s \<in> set na_values)"

definition field :: "string list \<Rightarrow> nat \<Rightarrow> string" where
  "field r j = (if j < length r then r ! j else [])"

text \<open>One field as a text cell, as a date cell and as a number cell; the last two can
  fail.\<close>

definition text_cell :: "string \<Rightarrow> cell" where
  "text_cell s = (if is_na s then NaN else Str s)"

definition date_cell :: "string \<Rightarrow> string \<Rightarrow> cell option" where
  "date_cell date_format s =
     (if is_na s then Some NaN
      else map_option (\<lambda>(y, m, d). Timestamp y m d) (strptime date_format s))"

definition number_cell :: "char option \<Rightarrow> string \<Rightarrow> cell option" where
  "number_cell thousands s =
     (if is_na s then Some NaN else map_option Number (to_number thousands s))"

text \<open>
  The reader converts column by column. A column listed in \<^verbatim>\<open>parse_dates\<close> becomes a
  column of timestamps when every field of it can be parsed; otherwise pandas returns the
  column unaltered, as text, and raises nothing. Every other column becomes numeric when
  every field of it is a number, and stays text otherwise (the fourth code cell, which
  does not pass \<^verbatim>\<open>thousands\<close>, prints the amounts as the raw texts, \<^verbatim>\<open>1,234.56\<close>
  included, and no exception). A column without any line is a column of objects.
\<close>

definition convert_dates :: "string \<Rightarrow> string list \<Rightarrow> Series" where
  "convert_dates date_format xs =
     (case those (map (date_cell date_format) xs) of
        Some cs \<Rightarrow> (Datetime64, cs)
      | None \<Rightarrow> (Object, map text_cell xs))"

definition infer_numeric :: "char option \<Rightarrow> string list \<Rightarrow> Series" where
  "infer_numeric thousands xs =
     (if xs = [] then (Object, [])
      else (case those (map (number_cell thousands) xs) of
              Some cs \<Rightarrow> (Numeric, cs)
            | None \<Rightarrow> (Object, map text_cell xs)))"

definition read_csv :: "csv_file \<Rightarrow> nat list \<Rightarrow> string \<Rightarrow> char option \<Rightarrow> py_error + DataFrame" where
  "read_csv f parse_dates date_format thousands =
     (if list_all (\<lambda>r. length r \<le> length (header f)) (lines f)
      then Inr (map (\<lambda>j. (header f ! j,
                          if j \<in> set parse_dates
                          then convert_dates date_format (map (\<lambda>r. field r j) (lines f))
                          else infer_numeric thousands (map (\<lambda>r. field r j) (lines f))))
                    [0..<length (header f)])
      else Inl ParserError)"

subsection \<open>The notebook's own statements\<close>

text \<open>
  \<^verbatim>\<open>+\<close> on two cells of series: a missing value on either side gives a missing value
  (pandas leaves the missing positions out of the operation), texts are concatenated,
  numbers are added, anything else is Python's \<^verbatim>\<open>TypeError\<close>.
\<close>

fun add_cell :: "cell \<Rightarrow> cell \<Rightarrow> py_error + cell" where
  "add_cell NaN _ = Inr NaN"
| "add_cell _ NaN = Inr NaN"
| "add_cell (Str a) (Str b) = Inr (Str (a @ b))"
| "add_cell (Number a) (Number b) = Inr (Number (a + b))"
| "add_cell _ _ = Inl TypeError"

text \<open>The first exception of an element-wise operation aborts it.\<close>

fun collect :: "(py_error + 'a) list \<Rightarrow> py_error + 'a list" where
  "collect [] = Inr []"
| "collect (x # xs) =
     (case x of
        Inl e \<Rightarrow> Inl e
      | Inr v \<Rightarrow> (case collect xs of Inl e \<Rightarrow> Inl e | Inr vs \<Rightarrow> Inr (v # vs)))"

text \<open>
  \<^verbatim>\<open>series + " - "\<close>, a series and a Python string: only a column of objects can take
  it; a numeric column or a column of timestamps raises \<^verbatim>\<open>TypeError\<close> as a whole.
\<close>

definition series_add_str :: "Series \<Rightarrow> string \<Rightarrow> py_error + Series" where
  "series_add_str s sep =
     (case s of
        (Object, xs) \<Rightarrow>
          (case collect (map (\<lambda>a. add_cell a (Str sep)) xs) of
             Inl e \<Rightarrow> Inl e
           | Inr ws \<Rightarrow> Inr (Object, ws))
      | _ \<Rightarrow> Inl TypeError)"

text \<open>
  \<^verbatim>\<open>series + series\<close>; both series come from the same frame, so they are aligned
  position by position. Timestamps cannot be added; two numeric columns give a numeric
  column; as soon as a column of objects takes part, the result is a column of objects.
\<close>

definition series_add :: "Series \<Rightarrow> Series \<Rightarrow> py_error + Series" where
  "series_add s t =
     (case (s, t) of
        ((d1, xs), (d2, ys)) \<Rightarrow>
          if d1 = Datetime64 \<or> d2 = Datetime64 then Inl TypeError
          else (case collect (map (\<lambda>(a, b). add_cell a b) (zip xs ys)) of
                  Inl e \<Rightarrow> Inl e
                | Inr ws \<Rightarrow> Inr (if d1 = Numeric \<and> d2 = Numeric then Numeric else Object, ws)))"

text \<open>\<^verbatim>\<open>df[c]\<close>, \<^verbatim>\<open>df[c] = s\<close>, \<^verbatim>\<open>df.drop(c, axis=1, inplace=True)\<close> and
  \<^verbatim>\<open>df.rename(columns=d, inplace=True)\<close>.\<close>

definition getitem :: "DataFrame \<Rightarrow> string \<Rightarrow> py_error + Series" where
  "getitem df c = (case map_of df c of None \<Rightarrow> Inl (KeyError c) | Some s \<Rightarrow> Inr s)"

definition setitem :: "DataFrame \<Rightarrow> string \<Rightarrow> Series \<Rightarrow> DataFrame" where
  "setitem df c s = AList.update c s df"

definition drop_df :: "DataFrame \<Rightarrow> string \<Rightarrow> py_error + DataFrame" where
  "drop_df df c = (if c \<in> set (map fst df) then Inr (AList.delete c df) else Inl (KeyError c))"

definition rename :: "DataFrame \<Rightarrow> (string \<times> string) list \<Rightarrow> DataFrame" where
  "rename df d = map (\<lambda>(c, s). (case map_of d c of None \<Rightarrow> c | Some c' \<Rightarrow> c', s)) df"

text \<open>
  The two statements under the comment \<^verbatim>\<open># concatenate descriptions columns\<close>:
  \<^verbatim>\<open>df[a] = df[a] + " - " + df[b]\<close> followed by \<^verbatim>\<open>df.drop(b, axis=1, inplace=True)\<close>.
  Python evaluates the right-hand side from left to right.
\<close>

definition concatenate_descriptions :: "string \<Rightarrow> string \<Rightarrow> DataFrame \<Rightarrow> py_error + DataFrame" where
  "concatenate_descriptions a b df =
     (case getitem df a of
        Inl e \<Rightarrow> Inl e
      | Inr x \<Rightarrow>
          (case series_add_str x '' - '' of
             Inl e \<Rightarrow> Inl e
           | Inr y \<Rightarrow>
               (case getitem df b of
                  Inl e \<Rightarrow> Inl e
                | Inr z \<Rightarrow>
                    (case series_add y z of
                       Inl e \<Rightarrow> Inl e
                     | Inr w \<Rightarrow> drop_df (setitem df a w) b))))"

text \<open>The code cells that merge the descriptions: the fourth (dates only, original
  labels) and the last (dates, thousands separator, renamed labels).\<close>

definition cell_7 :: "csv_file \<Rightarrow> py_error + DataFrame" where
  "cell_7 f =
     (case read_csv f [0] ''%Y%m%d'' None of
        Inl e \<Rightarrow> Inl e
      | Inr transactions \<Rightarrow>
          concatenate_descriptions ''transaction description'' ''detailed description'' transactions)"

definition cell_11 :: "csv_file \<Rightarrow> py_error + DataFrame" where
  "cell_11 f =
     (case read_csv f [0] ''%Y%m%d'' (Some CHR '','') of
        Inl e \<Rightarrow> Inl e
      | Inr transactions \<Rightarrow>
          concatenate_descriptions ''description'' ''detailed''
            (rename transactions
               [(''transaction date'', ''date''),
                (''transaction description'', ''description''),
                (''detailed description'', ''detailed''),
                (''amount ($)'', ''amount'')]))"

text \<open>The header of \<^verbatim>\<open>transactions-files/02.csv\<close>, as the second code cell prints it.\<close>

definition header_02 :: "string list" where
  "header_02 =
     [''transaction date'', ''transaction description'', ''detailed description'', ''amount ($)'']"

text \<open>Row \<open>i\<close> of a frame, \<^verbatim>\<open>df.iloc[i]\<close>, and the number of rows, \<^verbatim>\<open>len(df)\<close>.\<close>

definition iloc :: "DataFrame \<Rightarrow> nat \<Rightarrow> cell list" where
  "iloc df i = map (\<lambda>(c, (d, vs)). vs ! i) df"

definition len :: "DataFrame \<Rightarrow> nat" where
  "len df = (case df of [] \<Rightarrow> 0 | (c, (d, vs)) # _ \<Rightarrow> length vs)"

subsection \<open>The row-wise reading, and the notebook's data\<close>


text \<open>The content of \<^verbatim>\<open>transactions-files/02.csv\<close>, as the second code cell prints it,
  and the tables that the fourth and the last code cell print.\<close>

definition file_02 :: csv_file where
  "file_02 =
     \<lparr>header = header_02,
      lines =
        [[''20240404'', ''My Online Shop XYZ'', ''Invoice 1234'', ''-123.45''],
         [''20240403'', ''My Online Shop ABC'', ''Invoice 5678'', ''-54.32''],
         [''20240402'', ''My Employer'', ''April 2024'', ''1,234.56'']]\<rparr>"

definition out_07 :: DataFrame where
  "out_07 =
     [(''transaction date'',
         (Datetime64, [Timestamp 2024 4 4, Timestamp 2024 4 3, Timestamp 2024 4 2])),
      (''transaction description'',
         (Object,
          [Str ''My Online Shop XYZ - Invoice 1234'',
           Str ''My Online Shop ABC - Invoice 5678'',
           Str ''My Employer - April 2024''])),
      (''amount ($)'', (Object, [Str ''-123.45'', Str ''-54.32'', Str ''1,234.56'']))]"

definition out_11 :: DataFrame where
  "out_11 =
     [(''date'', (Datetime64, [Timestamp 2024 4 4, Timestamp 2024 4 3, Timestamp 2024 4 2])),
      (''description'',
         (Object,
          [Str ''My Online Shop XYZ - Invoice 1234'',
           Str ''My Online Shop ABC - Invoice 5678'',
           Str ''My Employer - April 2024''])),
      (''amount'',
         (Numeric, [Number (- 12345 / 100), Number (- 5432 / 100), Number (123456 / 100)]))]"


definition file_empty_fragment :: csv_file where
  "file_empty_fragment =
     \<lparr>header = header_02,
      lines =
        [[''20240404'', ''My Online Shop XYZ'', ''Invoice 1234'', ''-123.45''],
         [''20240402'', ''My Employer'', [], ''1,234.56'']]\<rparr>"

text \<open>A small table before the descriptions are merged, with the labels of the fourth
  code cell.\<close>

definition frame_unmerged :: DataFrame where
  "frame_unmerged =
     [(''transaction date'', (Datetime64, [Timestamp 2024 4 2])),
      (''transaction description'', (Object, [Str ''My Employer''])),
      (''detailed description'', (Object, [Str ''April 2024''])),
      (''amount ($)'', (Object, [Str ''1,234.56'']))]"

section \<open>The model against the notebook's recorded outputs\<close>

text \<open>Run on the file of the notebook, the model of the fourth and of the last code cell
  yields the tables that the notebook recorded for them.\<close>

lemma cell_7_file_02: "cell_7 file_02 = Inr out_07"
  by code_simp

lemma cell_11_file_02: "cell_11 file_02 = Inr out_11"
  by code_simp

section \<open>Element-wise operations\<close>

lemma collect_map_Inr: "collect (map Inr ys) = Inr ys"
  by (induction ys) simp_all

lemma collect_Inr_iff: "collect xs = Inr ys \<longleftrightarrow> xs = map Inr ys"
proof
  show "xs = map Inr ys" if "collect xs = Inr ys"
    using that by (induction xs arbitrary: ys) (auto split: sum.splits)
qed (simp add: collect_map_Inr)

lemma collect_nth:
  assumes "collect (map g xs) = Inr ws"
  shows "length ws = length xs" and "i < length xs \<Longrightarrow> g (xs ! i) = Inr (ws ! i)"
proof -
  from assms have eq: "map g xs = map Inr ws"
    by (simp add: collect_Inr_iff)
  then show len: "length ws = length xs"
    by (metis length_map)
  show "g (xs ! i) = Inr (ws ! i)" if "i < length xs"
    using that eq len by (metis nth_map)
qed

lemma add_cell_sep:
  assumes "add_cell x (Str sep) = Inr r"
  shows "(x = NaN \<and> r = NaN) \<or> (\<exists>u. x = Str u \<and> r = Str (u @ sep))"
  using assms by (cases x) auto

lemma add_cell_Str:
  assumes "add_cell (Str p) z = Inr r"
  shows "(z = NaN \<and> r = NaN) \<or> (\<exists>v. z = Str v \<and> r = Str (p @ v))"
  using assms by (cases z) auto

lemma series_add_str_Inr:
  assumes "series_add_str (d, xs) sep = Inr y"
  obtains ws where "d = Object" and "y = (Object, ws)" and "length ws = length xs"
    and "\<And>i. i < length xs \<Longrightarrow> add_cell (xs ! i) (Str sep) = Inr (ws ! i)"
proof -
  from assms have d: "d = Object"
    by (cases d) (simp_all add: series_add_str_def)
  with assms obtain ws where c: "collect (map (\<lambda>a. add_cell a (Str sep)) xs) = Inr ws"
    and y: "y = (Object, ws)"
    by (auto simp: series_add_str_def split: sum.splits)
  from collect_nth[OF c] d y that show ?thesis
    by blast
qed

lemma series_add_Inr:
  assumes "series_add (d1, xs) (d2, ys) = Inr w"
  obtains d ws where "w = (d, ws)" and "d1 = Object \<Longrightarrow> d = Object"
    and "length ws = min (length xs) (length ys)"
    and "\<And>i. i < length xs \<Longrightarrow> i < length ys \<Longrightarrow> add_cell (xs ! i) (ys ! i) = Inr (ws ! i)"
proof -
  from assms obtain ws where
    c: "collect (map (\<lambda>(a, b). add_cell a b) (zip xs ys)) = Inr ws"
    and w: "w = (if d1 = Numeric \<and> d2 = Numeric then Numeric else Object, ws)"
    by (auto simp: series_add_def split: sum.splits if_splits)
  from collect_nth(1)[OF c] have len: "length ws = min (length xs) (length ys)"
    by simp
  have nth: "add_cell (xs ! i) (ys ! i) = Inr (ws ! i)" if "i < length xs" "i < length ys" for i
  proof -
    from that have "i < length (zip xs ys)" by simp
    from collect_nth(2)[OF c this] that show ?thesis by simp
  qed
  from w have "d1 = Object \<Longrightarrow> (if d1 = Numeric \<and> d2 = Numeric then Numeric else Object) = Object"
    by simp
  with w len nth that show ?thesis
    by blast
qed

section \<open>The merging statements\<close>

text \<open>When the two statements complete, both columns existed, both additions went
  through, and the new table is the old one with column \<open>a\<close> replaced and column \<open>b\<close>
  removed.\<close>

lemma concatenate_descriptions_Inr:
  assumes "concatenate_descriptions a b df = Inr df'"
  obtains x y z w where
    "map_of df a = Some x" "series_add_str x '' - '' = Inr y"
    "map_of df b = Some z" "series_add y z = Inr w"
    "df' = AList.delete b (AList.update a w df)"
  using assms
  by (auto simp: concatenate_descriptions_def getitem_def setitem_def drop_df_def
           split: sum.splits option.splits if_splits)

text \<open>Row by row: the merged cell is missing when a fragment is missing, and the two
  texts around the separator otherwise.\<close>

lemma concatenate_descriptions_nth:
  assumes ok: "concatenate_descriptions a b df = Inr df'" and ab: "a \<noteq> b"
    and xs: "map_of df a = Some (d1, xs)" and ys: "map_of df b = Some (d2, ys)"
    and i: "i < length xs" "i < length ys"
  obtains ws where "map_of df' a = Some (Object, ws)"
    and "length ws = min (length xs) (length ys)"
    and "(\<exists>u v. xs ! i = Str u \<and> ys ! i = Str v \<and> ws ! i = Str (u @ '' - '' @ v))
         \<or> ((xs ! i = NaN \<or> ys ! i = NaN) \<and> ws ! i = NaN)"
proof -
  from ok obtain x y z w where
    x: "map_of df a = Some x" and y: "series_add_str x '' - '' = Inr y"
    and z: "map_of df b = Some z" and w: "series_add y z = Inr w"
    and df': "df' = AList.delete b (AList.update a w df)"
    by (rule concatenate_descriptions_Inr)
  from xs x have x': "x = (d1, xs)" by simp
  from ys z have z': "z = (d2, ys)" by simp
  from y[unfolded x'] obtain ms where y': "y = (Object, ms)" and lm: "length ms = length xs"
    and m: "\<And>i. i < length xs \<Longrightarrow> add_cell (xs ! i) (Str '' - '') = Inr (ms ! i)"
    by (rule series_add_str_Inr) blast
  from w[unfolded y' z'] obtain d ws where w': "w = (d, ws)" and d: "d = Object"
    and lw: "length ws = min (length ms) (length ys)"
    and n: "\<And>i. i < length ms \<Longrightarrow> i < length ys \<Longrightarrow> add_cell (ms ! i) (ys ! i) = Inr (ws ! i)"
    by (rule series_add_Inr) blast
  from df' ab w' d have 1: "map_of df' a = Some (Object, ws)"
    by (simp add: delete_conv' update_conv')
  from lw lm have 2: "length ws = min (length xs) (length ys)"
    by simp
  from m[OF i(1)] have
    "(xs ! i = NaN \<and> ms ! i = NaN) \<or> (\<exists>u. xs ! i = Str u \<and> ms ! i = Str (u @ '' - ''))"
    by (rule add_cell_sep)
  then have 3: "(\<exists>u v. xs ! i = Str u \<and> ys ! i = Str v \<and> ws ! i = Str (u @ '' - '' @ v))
         \<or> ((xs ! i = NaN \<or> ys ! i = NaN) \<and> ws ! i = NaN)"
  proof
    assume "xs ! i = NaN \<and> ms ! i = NaN"
    with n[of i] i lm show ?thesis by simp
  next
    assume "\<exists>u. xs ! i = Str u \<and> ms ! i = Str (u @ '' - '')"
    then obtain u where u: "xs ! i = Str u" "ms ! i = Str (u @ '' - '')" by blast
    with n[of i] i lm have "add_cell (Str (u @ '' - '')) (ys ! i) = Inr (ws ! i)"
      by simp
    then have "(ys ! i = NaN \<and> ws ! i = NaN)
               \<or> (\<exists>v. ys ! i = Str v \<and> ws ! i = Str ((u @ '' - '') @ v))"
      by (rule add_cell_Str)
    with u show ?thesis by auto
  qed
  from 1 2 3 that show ?thesis by blast
qed

text \<open>
  Claim C10 (frame property of the description-merging step). For every table, when the
  first description column \<open>a\<close> is replaced by the concatenation and the second
  description column \<open>b\<close> is dropped, every other column \<open>c\<close>, in particular the date
  and the amount column, reads exactly as before, in every row.
\<close>

theorem merge_keeps_other_columns:
  assumes "concatenate_descriptions a b df = Inr df'" and "c \<noteq> a" and "c \<noteq> b"
  shows "getitem df' c = getitem df c"
proof -
  from assms(1) obtain w where "df' = AList.delete b (AList.update a w df)"
    by (rule concatenate_descriptions_Inr)
  with assms(2,3) have "map_of df' c = map_of df c"
    by (simp add: delete_conv' update_conv')
  then show ?thesis
    by (simp add: getitem_def)
qed

theorem merge_keeps_other_columns_witness:
  "concatenate_descriptions ''transaction description'' ''detailed description'' frame_unmerged
     = Inr [(''transaction date'', (Datetime64, [Timestamp 2024 4 2])),
            (''transaction description'', (Object, [Str ''My Employer - April 2024''])),
            (''amount ($)'', (Object, [Str ''1,234.56'']))]
   \<and> getitem [(''transaction date'', (Datetime64, [Timestamp 2024 4 2])),
               (''transaction description'', (Object, [Str ''My Employer - April 2024''])),
               (''amount ($)'', (Object, [Str ''1,234.56'']))] ''amount ($)''
     = getitem frame_unmerged ''amount ($)''"
proof -
  have h1: "concatenate_descriptions ''transaction description'' ''detailed description''
              frame_unmerged
            = Inr [(''transaction date'', (Datetime64, [Timestamp 2024 4 2])),
                   (''transaction description'', (Object, [Str ''My Employer - April 2024''])),
                   (''amount ($)'', (Object, [Str ''1,234.56'']))]"
    by code_simp
  have h2: "''amount ($)'' \<noteq> ''transaction description''"
    by simp
  have h3: "''amount ($)'' \<noteq> ''detailed description''"
    by simp
  show ?thesis
    using h1 merge_keeps_other_columns[OF h1 h2 h3] by (rule conjI)
qed

section \<open>The reader\<close>

lemma those_map_None_iff: "those (map f xs) = None \<longleftrightarrow> (\<exists>x\<in>set xs. f x = None)"
  by (induction xs) (auto split: option.splits)

lemma those_map_Some: "those (map f xs) = Some ys \<Longrightarrow> ys = map (\<lambda>x. the (f x)) xs"
  by (induction xs arbitrary: ys) (auto split: option.splits)

lemma length_convert_dates [simp]: "length (snd (convert_dates fmt xs)) = length xs"
  by (auto simp: convert_dates_def dest: those_map_Some split: option.splits)

lemma length_infer_numeric [simp]: "length (snd (infer_numeric th xs)) = length xs"
  by (auto simp: infer_numeric_def dest: those_map_Some split: option.splits)





text \<open>A cell of an inferred column is the text cell of its field, or a number when the
  field is not a missing-value marker.\<close>

lemma number_cell_cases:
  assumes "number_cell th x = Some c"
  shows "c = text_cell x \<or> (\<exists>q. c = Number q \<and> \<not> is_na x)"
  using assms by (auto simp: number_cell_def text_cell_def split: if_splits)

lemma infer_numeric_nth:
  assumes "i < length xs"
  shows "snd (infer_numeric th xs) ! i = text_cell (xs ! i)
         \<or> (\<exists>q. snd (infer_numeric th xs) ! i = Number q \<and> \<not> is_na (xs ! i))"
proof (cases "those (map (number_cell th) xs)")
  case None
  with assms show ?thesis by (auto simp: infer_numeric_def)
next
  case (Some cs)
  from those_map_Some[OF Some] have cs: "cs = map (\<lambda>x. the (number_cell th x)) xs" .
  from Some assms have "number_cell th (xs ! i) \<noteq> None"
    by (metis nth_mem option.distinct(1) those_map_None_iff)
  then obtain c where c: "number_cell th (xs ! i) = Some c" by blast
  with assms Some cs have "snd (infer_numeric th xs) ! i = c"
    by (auto simp: infer_numeric_def)
  with number_cell_cases[OF c] show ?thesis by simp
qed

lemma read_csv_lengths_snd:
  assumes "read_csv f pd fmt th = Inr df" and "(c, s) \<in> set df"
  shows "length (snd s) = length (lines f)"
  using assms by (auto simp: read_csv_def split: if_splits)

lemma read_csv_lengths:
  assumes "read_csv f pd fmt th = Inr df" and "(c, (d, vs)) \<in> set df"
  shows "length vs = length (lines f)"
  using read_csv_lengths_snd[OF assms] by simp

lemma length_header_02: "length header_02 = 4"
  by (simp add: header_02_def)

lemma read_csv_02:
  assumes "header f = header_02" and "list_all (\<lambda>r. length r \<le> 4) (lines f)"
  shows "read_csv f [0] fmt th = Inr
           [(''transaction date'', convert_dates fmt (map (\<lambda>r. field r 0) (lines f))),
            (''transaction description'', infer_numeric th (map (\<lambda>r. field r 1) (lines f))),
            (''detailed description'', infer_numeric th (map (\<lambda>r. field r 2) (lines f))),
            (''amount ($)'', infer_numeric th (map (\<lambda>r. field r 3) (lines f)))]"
proof -
  have up: "[0..<4] = [0, 1, 2, 3::nat]"
    by (simp add: upt_rec)
  show ?thesis
    unfolding read_csv_def assms(1) length_header_02 up using assms(2)
    by (simp add: header_02_def)
qed

lemma read_csv_02_widths:
  assumes "header f = header_02" and "read_csv f pd fmt th = Inr df"
  shows "list_all (\<lambda>r. length r \<le> 4) (lines f)"
proof (rule ccontr)
  assume "\<not> list_all (\<lambda>r. length r \<le> 4) (lines f)"
  then have "read_csv f pd fmt th = Inl ParserError"
    unfolding read_csv_def assms(1) length_header_02 by simp
  with assms(2) show False by simp
qed




section \<open>Row count\<close>

lemma rename_columns: "(c, s) \<in> set (rename df d) \<Longrightarrow> \<exists>c'. (c', s) \<in> set df"
  by (auto simp: rename_def)

lemma update_columns:
  "(c, s) \<in> set (AList.update a w df) \<Longrightarrow> (c, s) \<in> set df \<or> s = w"
  by (induction df) (auto split: if_splits)

lemma delete_columns: "(c, s) \<in> set (AList.delete b df) \<Longrightarrow> (c, s) \<in> set df"
  by (simp add: AList.delete_eq)

lemma concatenate_descriptions_lengths:
  assumes ok: "concatenate_descriptions a b df = Inr df'"
    and n: "\<And>c d vs. (c, (d, vs)) \<in> set df \<Longrightarrow> length vs = n"
    and cs: "(c, (d, vs)) \<in> set df'"
  shows "length vs = n"
proof -
  from ok obtain x y z w where
    x: "map_of df a = Some x" and y: "series_add_str x '' - '' = Inr y"
    and z: "map_of df b = Some z" and w: "series_add y z = Inr w"
    and df': "df' = AList.delete b (AList.update a w df)"
    by (rule concatenate_descriptions_Inr)
  obtain d1 xs where x': "x = (d1, xs)" by (cases x)
  obtain d2 ys where z': "z = (d2, ys)" by (cases z)
  from x z x' z' have lx: "length xs = n" and lz: "length ys = n"
    by (auto dest!: map_of_SomeD n)
  from y[unfolded x'] obtain ms where y': "y = (Object, ms)" and lm: "length ms = length xs"
    by (rule series_add_str_Inr) blast
  from w[unfolded y' z'] obtain dw ws where w': "w = (dw, ws)"
    and lw: "length ws = min (length ms) (length ys)"
    by (rule series_add_Inr) blast
  from lw lm lx lz have "length ws = n" by simp
  moreover from cs df' have "(c, (d, vs)) \<in> set df \<or> (d, vs) = w"
    by (auto dest: delete_columns update_columns)
  ultimately show ?thesis
    using n w' by auto
qed

lemma concatenate_descriptions_nonempty:
  assumes "concatenate_descriptions a b df = Inr df'" and "a \<noteq> b"
  shows "df' \<noteq> []"
proof -
  from assms(1) obtain w where "df' = AList.delete b (AList.update a w df)"
    by (rule concatenate_descriptions_Inr)
  with assms(2) have "map_of df' a = Some w"
    by (simp add: delete_conv' update_conv')
  then show ?thesis by auto
qed

text \<open>
  Claim C5 (row count invariant). Whenever the last code cell completes on a file, that
  is, no line of it makes the pipeline fail, the resulting table has as many rows as the
  file has data lines: \<^verbatim>\<open>len\<close> of the table, and the length of every one of its
  columns, is the number of lines.
\<close>

theorem row_count:
  assumes "cell_11 f = Inr df"
  shows "len df = length (lines f)
         \<and> (\<forall>(c, d, vs) \<in> set df. length vs = length (lines f))"
proof -
  from assms obtain df0 where
    r: "read_csv f [0] ''%Y%m%d'' (Some CHR '','') = Inr df0"
    and m: "concatenate_descriptions ''description'' ''detailed''
              (rename df0
                 [(''transaction date'', ''date''),
                  (''transaction description'', ''description''),
                  (''detailed description'', ''detailed''),
                  (''amount ($)'', ''amount'')]) = Inr df"
    by (auto simp: cell_11_def split: sum.splits)
  have all: "length vs = length (lines f)" if "(c, (d, vs)) \<in> set df" for c d vs
    using m _ that
  proof (rule concatenate_descriptions_lengths)
    fix c' d' vs'
    assume "(c', (d', vs')) \<in> set (rename df0
                 [(''transaction date'', ''date''),
                  (''transaction description'', ''description''),
                  (''detailed description'', ''detailed''),
                  (''amount ($)'', ''amount'')])"
    then obtain c'' where "(c'', (d', vs')) \<in> set df0"
      by (blast dest: rename_columns)
    with r show "length vs' = length (lines f)"
      by (rule read_csv_lengths)
  qed
  from m have "df \<noteq> []"
    by (rule concatenate_descriptions_nonempty) simp
  then obtain c d vs rest where df: "df = (c, (d, vs)) # rest"
    by (cases df) auto
  with all[of c d vs] have "len df = length (lines f)"
    by (simp add: len_def)
  with all show ?thesis by auto
qed

theorem row_count_witness:
  "cell_11 file_02 = Inr out_11 \<and> len out_11 = length (lines file_02)
   \<and> length (lines file_02) = 3"
proof -
  have "length (lines file_02) = 3"
    by (simp add: file_02_def)
  with cell_11_file_02 row_count[OF cell_11_file_02] show ?thesis
    by simp
qed

section \<open>The last code cell on files shaped like the notebook's\<close>

lemma text_cell_Str: "text_cell s = Str u \<longleftrightarrow> \<not> is_na s \<and> u = s"
  by (auto simp: text_cell_def)

lemma text_cell_NaN: "text_cell s = NaN \<longleftrightarrow> is_na s"
  by (simp add: text_cell_def)

lemma infer_numeric_Object:
  "infer_numeric th xs = (Object, cs) \<Longrightarrow> cs = map text_cell xs"
  by (auto simp: infer_numeric_def split: if_splits option.splits)




lemma rename_02:
  "rename [(''transaction date'', D), (''transaction description'', X),
           (''detailed description'', Y), (''amount ($)'', A)]
     [(''transaction date'', ''date''),
      (''transaction description'', ''description''),
      (''detailed description'', ''detailed''),
      (''amount ($)'', ''amount'')]
   = [(''date'', D), (''description'', X), (''detailed'', Y), (''amount'', A)]"
  by (simp add: rename_def)

lemma cell_11_02:
  assumes "header f = header_02" and "list_all (\<lambda>r. length r \<le> 4) (lines f)"
  shows "cell_11 f = concatenate_descriptions ''description'' ''detailed''
           [(''date'', convert_dates ''%Y%m%d'' (map (\<lambda>r. field r 0) (lines f))),
            (''description'', infer_numeric (Some CHR '','') (map (\<lambda>r. field r 1) (lines f))),
            (''detailed'', infer_numeric (Some CHR '','') (map (\<lambda>r. field r 2) (lines f))),
            (''amount'', infer_numeric (Some CHR '','') (map (\<lambda>r. field r 3) (lines f)))]"
  by (simp only: cell_11_def read_csv_02[OF assms] rename_02 sum.case)

text \<open>Whenever the cell completes, its table is the converted date column, the
  descriptions of every line (missing when a fragment is missing, joined otherwise),
  and the converted amount column.\<close>

lemma cell_11_02_result:
  assumes hdr: "header f = header_02" and ok: "cell_11 f = Inr df"
  shows "df = [(''date'', convert_dates ''%Y%m%d'' (map (\<lambda>r. field r 0) (lines f))),
               (''description'',
                  (Object, map (\<lambda>r. if is_na (field r 1) \<or> is_na (field r 2) then NaN
                                     else Str (field r 1 @ '' - '' @ field r 2)) (lines f))),
               (''amount'', infer_numeric (Some CHR '','') (map (\<lambda>r. field r 3) (lines f)))]"
proof -
  let ?D = "convert_dates ''%Y%m%d'' (map (\<lambda>r. field r 0) (lines f))"
  let ?X = "infer_numeric (Some CHR '','') (map (\<lambda>r. field r 1) (lines f))"
  let ?Y = "infer_numeric (Some CHR '','') (map (\<lambda>r. field r 2) (lines f))"
  let ?A = "infer_numeric (Some CHR '','') (map (\<lambda>r. field r 3) (lines f))"
  let ?df1 = "[(''date'', ?D), (''description'', ?X), (''detailed'', ?Y), (''amount'', ?A)]"
  let ?J = "map (\<lambda>r. if is_na (field r 1) \<or> is_na (field r 2) then NaN
                      else Str (field r 1 @ '' - '' @ field r 2)) (lines f)"
  from ok obtain df0 where "read_csv f [0] ''%Y%m%d'' (Some CHR '','') = Inr df0"
    by (auto simp: cell_11_def split: sum.splits)
  with hdr have wd: "list_all (\<lambda>r. length r \<le> 4) (lines f)"
    by (rule read_csv_02_widths)
  with hdr ok have m: "concatenate_descriptions ''description'' ''detailed'' ?df1 = Inr df"
    by (simp only: cell_11_02)
  then obtain x y z w where
    x: "map_of ?df1 ''description'' = Some x" and y: "series_add_str x '' - '' = Inr y"
    and z: "map_of ?df1 ''detailed'' = Some z" and w: "series_add y z = Inr w"
    and df: "df = AList.delete ''detailed'' (AList.update ''description'' w ?df1)"
    by (rule concatenate_descriptions_Inr)
  obtain d1 xs where X: "?X = (d1, xs)" by (cases ?X)
  obtain d2 ys where Y: "?Y = (d2, ys)" by (cases ?Y)
  from x X have x': "x = (d1, xs)" by simp
  from z Y have z': "z = (d2, ys)" by simp
  from y[unfolded x'] have "d1 = Object"
    by (rule series_add_str_Inr)
  with X have "infer_numeric (Some CHR '','') (map (\<lambda>r. field r 1) (lines f)) = (Object, xs)"
    by (simp only:)
  then have xs: "xs = map text_cell (map (\<lambda>r. field r 1) (lines f))"
    by (rule infer_numeric_Object)
  from Y have ys: "ys = snd ?Y" by simp
  then have lys: "length ys = length (lines f)" by simp
  from xs have lxs: "length xs = length (lines f)" by simp
  have "\<exists>ws. w = (Object, ws) \<and> length ws = length (lines f)
          \<and> (\<forall>i<length (lines f). ws ! i = ?J ! i)"
  proof -
    from y[unfolded x'] obtain ms where y': "y = (Object, ms)" and lm: "length ms = length xs"
      by (rule series_add_str_Inr) blast
    from w[unfolded y' z'] obtain d ws where w': "w = (d, ws)" and d: "d = Object"
      and lw: "length ws = min (length ms) (length ys)"
      by (rule series_add_Inr) blast
    have "ws ! i = ?J ! i" if i: "i < length (lines f)" for i
    proof -
      let ?a = "field (lines f ! i) 1" and ?b = "field (lines f ! i) 2"
      have df_a: "map_of ?df1 ''description'' = Some (d1, xs)"
        using X by simp
      have df_b: "map_of ?df1 ''detailed'' = Some (d2, ys)"
        using Y by simp
      from i lxs lys have ix: "i < length xs" and iy: "i < length ys" by simp_all
      have ne: "''description'' \<noteq> ''detailed''" by simp
      from m ne df_a df_b ix iy obtain ws' where
        1: "map_of df ''description'' = Some (Object, ws')"
        and 3: "(\<exists>u v. xs ! i = Str u \<and> ys ! i = Str v \<and> ws' ! i = Str (u @ '' - '' @ v))
                \<or> ((xs ! i = NaN \<or> ys ! i = NaN) \<and> ws' ! i = NaN)"
        by (rule concatenate_descriptions_nth)
      from df w' have "map_of df ''description'' = Some (d, ws)"
        by (simp add: delete_conv' update_conv')
      with 1 have [simp]: "ws' = ws" by simp
      from i xs have xi: "xs ! i = text_cell ?a" by simp
      from i have yi: "ys ! i = text_cell ?b \<or> (\<exists>q. ys ! i = Number q \<and> \<not> is_na ?b)"
        using infer_numeric_nth[of i "map (\<lambda>r. field r 2) (lines f)" "Some CHR '',''"] ys
        by simp
      from 3 have "ws ! i = (if is_na ?a \<or> is_na ?b then NaN else Str (?a @ '' - '' @ ?b))"
      proof
        assume "\<exists>u v. xs ! i = Str u \<and> ys ! i = Str v \<and> ws' ! i = Str (u @ '' - '' @ v)"
        then obtain u v where u: "xs ! i = Str u" and v: "ys ! i = Str v"
          and j: "ws ! i = Str (u @ '' - '' @ v)"
          by auto
        from u xi have "text_cell ?a = Str u" by simp
        then have a: "\<not> is_na ?a \<and> u = ?a" by (rule iffD1[OF text_cell_Str])
        from v yi have "text_cell ?b = Str v" by auto
        then have b: "\<not> is_na ?b \<and> v = ?b" by (rule iffD1[OF text_cell_Str])
        from a b j show ?thesis by simp
      next
        assume n: "(xs ! i = NaN \<or> ys ! i = NaN) \<and> ws' ! i = NaN"
        then have "text_cell ?a = NaN \<or> text_cell ?b = NaN"
          using xi yi by auto
        then have "is_na ?a \<or> is_na ?b" by (auto simp: text_cell_NaN)
        with n show ?thesis by simp
      qed
      with i show ?thesis by simp
    qed
    with w' d lw lm lxs lys show ?thesis by simp
  qed
  then obtain ws where "w = (Object, ws)" and "length ws = length ?J"
    and "\<forall>i<length ws. ws ! i = ?J ! i"
    by auto
  then have "w = (Object, ?J)"
    by (simp add: list_eq_iff_nth_eq)
  with df show ?thesis by simp
qed


text \<open>
  Claim C4, as stated (an empty fragment still contributes an empty segment, and the
  separator is inserted regardless of emptiness), does not hold: the reader takes the
  empty second fragment of the last line for a missing value, and the description of
  that line is missing as a whole, not \<^verbatim>\<open>My Employer - \<close>.
\<close>

theorem empty_fragment_counterexample:
  "cell_11 file_empty_fragment
     = Inr [(''date'', (Datetime64, [Timestamp 2024 4 4, Timestamp 2024 4 2])),
            (''description'', (Object, [Str ''My Online Shop XYZ - Invoice 1234'', NaN])),
            (''amount'', (Numeric, [Number (- 12345 / 100), Number (123456 / 100)]))]"
  by code_simp

text \<open>
  Claim C4, amended (description assembly). For every row in which both description
  fragments are present, the output description is the text of the first fragment, the
  fixed separator \<^verbatim>\<open>" - "\<close>, and the text of the second fragment, in the declared
  order; a row in which a fragment is empty (or another missing-value marker) is read
  with that fragment missing, and its description is missing, without segment and
  without separator.
\<close>

theorem description_joined_or_missing:
  assumes hdr: "header f = header_02" and ok: "cell_11 f = Inr df"
    and i: "i < length (lines f)"
  shows "\<exists>ws. getitem df ''description'' = Inr (Object, ws)
           \<and> ws ! i = (if is_na (field (lines f ! i) 1) \<or> is_na (field (lines f ! i) 2)
                       then NaN
                       else Str (field (lines f ! i) 1 @ '' - '' @ field (lines f ! i) 2))"
proof -
  let ?J = "map (\<lambda>r. if is_na (field r 1) \<or> is_na (field r 2) then NaN
                      else Str (field r 1 @ '' - '' @ field r 2)) (lines f)"
  from hdr ok have
    "df = [(''date'', convert_dates ''%Y%m%d'' (map (\<lambda>r. field r 0) (lines f))),
           (''description'', (Object, ?J)),
           (''amount'', infer_numeric (Some CHR '','') (map (\<lambda>r. field r 3) (lines f)))]"
    by (rule cell_11_02_result)
  then have "getitem df ''description'' = Inr (Object, ?J)"
    by (simp add: getitem_def)
  moreover from i have "?J ! i = (if is_na (field (lines f ! i) 1) \<or> is_na (field (lines f ! i) 2)
                       then NaN
                       else Str (field (lines f ! i) 1 @ '' - '' @ field (lines f ! i) 2))"
    by simp
  ultimately show ?thesis by blast
qed

theorem description_joined_or_missing_witness:
  "header file_02 = header_02 \<and> cell_11 file_02 = Inr out_11 \<and> 2 < length (lines file_02)
   \<and> (\<exists>ws. getitem out_11 ''description'' = Inr (Object, ws)
          \<and> ws ! 2 = Str (''My Employer'' @ '' - '' @ ''April 2024''))"
proof -
  have h1: "header file_02 = header_02"
    by (simp add: file_02_def)
  have h3: "2 < length (lines file_02)"
    by (simp add: file_02_def)
  have f1: "field (lines file_02 ! 2) 1 = ''My Employer''"
    by (simp add: file_02_def field_def)
  have f2: "field (lines file_02 ! 2) 2 = ''April 2024''"
    by (simp add: file_02_def field_def)
  have n1: "\<not> is_na ''My Employer''"
    by code_simp
  have n2: "\<not> is_na ''April 2024''"
    by code_simp
  from description_joined_or_missing[OF h1 cell_11_file_02 h3]
  have "\<exists>ws. getitem out_11 ''description'' = Inr (Object, ws)
          \<and> ws ! 2 = Str (''My Employer'' @ '' - '' @ ''April 2024'')"
    unfolding f1 f2 using n1 n2 by simp
  with h1 cell_11_file_02 h3 show ?thesis
    by (intro conjI)
qed





section \<open>The examples of the specification\<close>

text \<open>
  Claim C1 (example 2). On the row \<^verbatim>\<open>["20240402","My Employer","April 2024","1,234.56"]\<close>,
  with the date in column 0 read by \<^verbatim>\<open>%Y%m%d\<close>, the description fragments in columns
  1 and 2, the amount in column 3 and the thousands separator \<^verbatim>\<open>,\<close>, the last code
  cell completes and returns the single transaction with date 2024-04-02, description
  \<^verbatim>\<open>My Employer - April 2024\<close> and amount 1234.56.
\<close>

theorem example_split_description:
  "cell_11 \<lparr>header = header_02,
            lines = [[''20240402'', ''My Employer'', ''April 2024'', ''1,234.56'']]\<rparr>
     = Inr [(''date'', (Datetime64, [Timestamp 2024 4 2])),
            (''description'', (Object, [Str ''My Employer - April 2024''])),
            (''amount'', (Numeric, [Number (123456 / 100)]))]"
  by code_simp

theorem example_split_description_witness:
  "\<exists>df. cell_11 \<lparr>header = header_02,
                 lines = [[''20240402'', ''My Employer'', ''April 2024'', ''1,234.56'']]\<rparr>
          = Inr df
        \<and> len df = 1
        \<and> iloc df 0 = [Timestamp 2024 4 2, Str ''My Employer - April 2024'', Number (123456 / 100)]"
  using example_split_description by (simp add: iloc_def len_def)






end
